theory Spec2Isabelle
  imports Complex_Main "HOL-Library.AList"
begin

section \<open>Survev SPI calculator\<close>

text \<open>
  The repository holds two revisions of one Streamlit script, \<^verbatim>\<open>survev_spi_app.py\<close> and
  \<^verbatim>\<open>survev_spi_app (3).py\<close>. Their scoring code is the same; their text extraction differs
  and is embedded once per revision further down.

  Modelling conventions.
  \<^item> Python's unbounded \<^verbatim>\<open>int\<close> is \<^typ>\<open>int\<close>.
  \<^item> Python's \<^verbatim>\<open>float\<close> is \<^typ>\<open>real\<close>: arithmetic is exact, so rounding to binary64,
    overflow to infinity and NaN are outside this development. \<^verbatim>\<open>a / b\<close> on two ints is
    true division, \<open>real_of_int a / real_of_int b\<close>.
  \<^item> A \<^verbatim>\<open>dict\<close> keeps insertion order, and assigning to a key that exists keeps its
    place: an association list updated with \<^const>\<open>AList.update\<close>.
  \<^item> A \<^verbatim>\<open>str\<close> is a \<^typ>\<open>string\<close>, one \<^typ>\<open>char\<close> per code point. The character
    classes \<^verbatim>\<open>\s\<close>, \<^verbatim>\<open>\d\<close>, \<^verbatim>\<open>\w\<close>, case folding and \<^verbatim>\<open>str.upper\<close> are Python's on ASCII
    text; code points from 128 on belong to no class here, so the embedding speaks about
    ASCII input.
  \<^item> An exception is a value: a function that can raise returns \<open>py_error + 'a\<close>, with
    \<^const>\<open>Inl\<close> for the exception; \<^verbatim>\<open>None\<close> is \<^const>\<open>None\<close>.
\<close>

section \<open>Scoring\<close>

subsection \<open>Configuration\<close>

definition TIERS :: "(string \<times> int) list" where
  "TIERS =
    [(''Grandmaster'', 750),
     (''Master'', 650),
     (''Diamond'', 550),
     (''Platinum'', 450),
     (''Gold'', 350),
     (''Silver'', 250),
     (''Bronze'', - (10 ^ 9))]"

definition CONFIDENCE_CONST :: int where
  "CONFIDENCE_CONST = 50"

definition NEUTRAL_BASELINE :: int where
  "NEUTRAL_BASELINE = 300"

definition SURVIVAL_CAP_SEC :: int where
  "SURVIVAL_CAP_SEC = 180"

subsection \<open>\<^verbatim>\<open>tier_from_score\<close>\<close>

text \<open>The \<^verbatim>\<open>for name, threshold in TIERS\<close> loop; the \<^verbatim>\<open>return "Bronze"\<close> after the loop is
  the empty-list case.\<close>

fun tier_loop :: "(string \<times> int) list \<Rightarrow> real \<Rightarrow> string" where
  "tier_loop [] score = ''Bronze''"
| "tier_loop ((name, threshold) # rest) score =
     (if score \<ge> real_of_int threshold then name else tier_loop rest score)"

definition tier_from_score :: "real \<Rightarrow> string" where
  "tier_from_score score = tier_loop TIERS score"

subsection \<open>\<^verbatim>\<open>ModeStats\<close>\<close>

record ModeStats =
  games :: int
  kills :: int
  win_pct :: real
  avg_survived_sec :: int
  avg_damage :: real

text \<open>The dictionary returned by \<^verbatim>\<open>spi_components\<close> always has the same four keys.\<close>

record components =
  Base :: real
  Survival :: real
  Damage :: real
  WinBonus :: real

text \<open>Both divisions by a field are guarded by \<^verbatim>\<open>self.games > 0\<close>; the other divisors are
  non-zero constants, so no \<^verbatim>\<open>ZeroDivisionError\<close> branch exists.\<close>

definition spi_components :: "ModeStats \<Rightarrow> components" where
  "spi_components self =
    \<lparr> Base = (if games self > 0
               then (real_of_int (kills self) / real_of_int (games self)) * 100
               else 0),
      Survival = (real_of_int (min (avg_survived_sec self) SURVIVAL_CAP_SEC)
                    / real_of_int SURVIVAL_CAP_SEC) * 50,
      Damage = (avg_damage self / 500) * 40,
      WinBonus = win_pct self * 2 \<rparr>"

definition spi :: "ModeStats \<Rightarrow> real" where
  "spi self =
    (let comps = spi_components self
     in Base comps + Survival comps + Damage comps + WinBonus comps)"

definition adj_spi :: "ModeStats \<Rightarrow> real" where
  "adj_spi self =
    (let s = spi self;
         w = (if games self > 0
              then real_of_int (games self) / real_of_int (games self + CONFIDENCE_CONST)
              else 0)
     in real_of_int NEUTRAL_BASELINE + w * (s - real_of_int NEUTRAL_BASELINE))"

subsection \<open>\<^verbatim>\<open>overall_adj_spi\<close>\<close>

type_synonym mode_collection = "(string \<times> ModeStats) list"

definition overall_adj_spi :: "mode_collection \<Rightarrow> real" where
  "overall_adj_spi modes =
    (let total = sum_list (map (\<lambda>m. games m) (map snd modes))
     in if total = 0 then 0
        else sum_list (map (\<lambda>m. adj_spi m * real_of_int (games m)) (map snd modes))
               / real_of_int total)"


text \<open>The data-model invariant of the specification: every field is non-negative.\<close>

definition valid_ModeStats :: "ModeStats \<Rightarrow> bool" where
  "valid_ModeStats ms =
    (0 \<le> games ms \<and> 0 \<le> kills ms \<and> 0 \<le> win_pct ms \<and> 0 \<le> avg_survived_sec ms
      \<and> 0 \<le> avg_damage ms)"

section \<open>Python's \<^verbatim>\<open>re\<close> on the patterns of the program\<close>

subsection \<open>Character classes\<close>

definition is_digit :: "char \<Rightarrow> bool" where
  "is_digit c = (c \<in> set ''0123456789'')"

text \<open>\<^verbatim>\<open>\s\<close> and \<^verbatim>\<open>str.isspace\<close> on ASCII: tab, line feed, vertical tab, form feed, carriage
  return, the four separators 0x1C to 0x1F, and the space.\<close>

definition is_space :: "char \<Rightarrow> bool" where
  "is_space c = (c \<in> set [CHR 0x09, CHR 0x0A, CHR 0x0B, CHR 0x0C, CHR 0x0D,
                             CHR 0x1C, CHR 0x1D, CHR 0x1E, CHR 0x1F, CHR '' ''])"

definition is_word :: "char \<Rightarrow> bool" where
  "is_word c =
    (c \<in> set ''abcdefghijklmnopqrstuvwxyzABCDEFGHIJKLMNOPQRSTUVWXYZ0123456789_'')"

definition upper_lower :: "(char \<times> char) list" where
  "upper_lower = zip ''ABCDEFGHIJKLMNOPQRSTUVWXYZ'' ''abcdefghijklmnopqrstuvwxyz''"

definition lower_chr :: "char \<Rightarrow> char" where
  "lower_chr c = (case map_of upper_lower c of Some l \<Rightarrow> l | None \<Rightarrow> c)"

definition upper_chr :: "char \<Rightarrow> char" where
  "upper_chr c =
    (case map_of (map (\<lambda>(u, l). (l, u)) upper_lower) c of Some u \<Rightarrow> u | None \<Rightarrow> c)"

text \<open>\<^verbatim>\<open>str.upper\<close> and \<^verbatim>\<open>str.strip\<close>.\<close>

definition upper :: "string \<Rightarrow> string" where
  "upper s = map upper_chr s"

definition strip :: "string \<Rightarrow> string" where
  "strip s = rev (dropWhile is_space (rev (dropWhile is_space s)))"

text \<open>A literal letter under \<^verbatim>\<open>re.I\<close> matches both of its cases.\<close>

definition ci :: "char \<Rightarrow> char \<Rightarrow> bool" where
  "ci a c = (lower_chr c = lower_chr a)"

subsection \<open>A backtracking matcher\<close>

text \<open>
  The regular expressions of the program repeat single characters only (\<^verbatim>\<open>\d+\<close>, \<^verbatim>\<open>\s*\<close>,
  \<^verbatim>\<open>S?\<close>, \<^verbatim>\<open>.*?\<close>, \<^verbatim>\<open>\d{1,2}\<close>), so a repetition carries a character class, its bounds and
  whether it is greedy. A cursor is the character before the position (for \<^verbatim>\<open>\b\<close> and
  \<^verbatim>\<open>^\<close>) and the text from the position on.

  \<open>rmatch r cur g\<close> lists every way \<open>r\<close> matches at \<open>cur\<close>, in the order in which Python's
  backtracking engine tries them: the head of the list is the match \<^verbatim>\<open>re\<close> reports.
\<close>

type_synonym cursor = "char option \<times> string"

type_synonym groups = "nat \<rightharpoonup> string"

datatype regex =
    Sym "char \<Rightarrow> bool"
  | Rep "char \<Rightarrow> bool" nat "nat option" bool
  | Cat regex regex
  | Alt regex regex
  | Grp nat regex
  | WordB
  | Bol
  | Eol
  | Eps

text \<open>The cursors after 0, 1, ... characters of the class, at most \<open>n\<close> of them.\<close>

fun runs :: "(char \<Rightarrow> bool) \<Rightarrow> nat \<Rightarrow> cursor \<Rightarrow> cursor list" where
  "runs p n (c, []) = [(c, [])]"
| "runs p n (c, x # xs) =
     (c, x # xs) # (if 0 < n \<and> p x then runs p (n - 1) (Some x, xs) else [])"

text \<open>At least \<open>lo\<close> characters; a greedy repetition tries the longest run first, a lazy
  one the shortest.\<close>

definition rep_cursors ::
  "(char \<Rightarrow> bool) \<Rightarrow> nat \<Rightarrow> nat option \<Rightarrow> bool \<Rightarrow> cursor \<Rightarrow> cursor list" where
  "rep_cursors p lo hi greedy cur =
    (let l = drop lo (runs p (case hi of None \<Rightarrow> length (snd cur) | Some h \<Rightarrow> h) cur)
     in if greedy then rev l else l)"

definition word_before :: "cursor \<Rightarrow> bool" where
  "word_before cur = (case fst cur of None \<Rightarrow> False | Some c \<Rightarrow> is_word c)"

definition word_after :: "cursor \<Rightarrow> bool" where
  "word_after cur = (case snd cur of [] \<Rightarrow> False | x # _ \<Rightarrow> is_word x)"

text \<open>The text between two cursors of one string: what a group captures.\<close>

definition consumed :: "cursor \<Rightarrow> cursor \<Rightarrow> string" where
  "consumed cur cur' = take (length (snd cur) - length (snd cur')) (snd cur)"

fun rmatch :: "regex \<Rightarrow> cursor \<Rightarrow> groups \<Rightarrow> (cursor \<times> groups) list" where
  "rmatch (Sym p) cur g =
     (case snd cur of [] \<Rightarrow> [] | x # xs \<Rightarrow> if p x then [((Some x, xs), g)] else [])"
| "rmatch (Rep p lo hi greedy) cur g =
     map (\<lambda>cur'. (cur', g)) (rep_cursors p lo hi greedy cur)"
| "rmatch (Cat a b) cur g =
     concat (map (\<lambda>(cur', g'). rmatch b cur' g') (rmatch a cur g))"
| "rmatch (Alt a b) cur g = rmatch a cur g @ rmatch b cur g"
| "rmatch (Grp n r) cur g =
     map (\<lambda>(cur', g'). (cur', g'(n \<mapsto> consumed cur cur'))) (rmatch r cur g)"
| "rmatch WordB cur g = (if word_before cur = word_after cur then [] else [(cur, g)])"
| "rmatch Bol cur g = (if fst cur = None then [(cur, g)] else [])"
| "rmatch Eol cur g =
     (if snd cur = [] \<or> snd cur = [CHR 0x0A] then [(cur, g)] else [])"
| "rmatch Eps cur g = [(cur, g)]"

subsection \<open>Match objects, \<^verbatim>\<open>re.match\<close>, \<^verbatim>\<open>re.search\<close>\<close>

record match_obj =
  m_start :: cursor
  m_end :: cursor
  m_groups :: groups

definition match_at :: "regex \<Rightarrow> cursor \<Rightarrow> match_obj option" where
  "match_at r cur =
    (case rmatch r cur Map.empty of
       [] \<Rightarrow> None
     | (cur', g) # _ \<Rightarrow> Some \<lparr>m_start = cur, m_end = cur', m_groups = g\<rparr>)"

text \<open>\<^verbatim>\<open>m.group(n)\<close>; \<^const>\<open>None\<close> for a group that took no part in the match.\<close>

definition m_group :: "match_obj \<Rightarrow> nat \<Rightarrow> string option" where
  "m_group m n = m_groups m n"

definition re_match :: "regex \<Rightarrow> string \<Rightarrow> match_obj option" where
  "re_match r s = match_at r (None, s)"

text \<open>\<^verbatim>\<open>re.search\<close>: the leftmost position with a match, from the start to the end
  of the string inclusive.\<close>

fun search_from :: "regex \<Rightarrow> char option \<Rightarrow> string \<Rightarrow> match_obj option" where
  "search_from r c [] = match_at r (c, [])"
| "search_from r c (x # xs) =
     (case match_at r (c, x # xs) of
        Some m \<Rightarrow> Some m
      | None \<Rightarrow> search_from r (Some x) xs)"

definition re_search :: "regex \<Rightarrow> string \<Rightarrow> match_obj option" where
  "re_search r s = search_from r None s"

subsection \<open>\<^verbatim>\<open>re.sub\<close> and \<^verbatim>\<open>re.split\<close>\<close>

text \<open>
  Both scan for successive matches that do not overlap. The two patterns they are called
  with (\<^verbatim>\<open>[^\S\r\n]+\<close> and \<^verbatim>\<open>\b(SOLO|DUO|SQUAD)\b\<close>) match at least one character, so
  Python's rules for empty matches are not embedded: a match that consumes nothing counts
  as no match at that position.
\<close>

definition match_nonempty :: "regex \<Rightarrow> cursor \<Rightarrow> match_obj option" where
  "match_nonempty r cur =
    (case match_at r cur of
       None \<Rightarrow> None
     | Some m \<Rightarrow> if length (snd (m_end m)) < length (snd cur) then Some m else None)"

lemma match_nonempty_shorter:
  "match_nonempty r (c, s) = Some m \<Longrightarrow> length (snd (m_end m)) < length s"
  by (auto simp: match_nonempty_def split: option.splits if_splits)

function sub_from :: "regex \<Rightarrow> string \<Rightarrow> char option \<Rightarrow> string \<Rightarrow> string" where
  "sub_from r repl c s =
    (case match_nonempty r (c, s) of
       Some m \<Rightarrow> repl @ sub_from r repl (fst (m_end m)) (snd (m_end m))
     | None \<Rightarrow> (case s of [] \<Rightarrow> [] | x # xs \<Rightarrow> x # sub_from r repl (Some x) xs))"
  by pat_completeness auto
termination
  by (relation "measure (\<lambda>(r, repl, c, s). length s)")
     (auto dest: match_nonempty_shorter simp: case_prod_beta)

definition re_sub :: "regex \<Rightarrow> string \<Rightarrow> string \<Rightarrow> string" where
  "re_sub r repl s = sub_from r repl None s"

text \<open>\<^verbatim>\<open>re.split\<close> with a pattern of one capturing group: the text before the first
  match, then for each match its group 1 and the text up to the next match or the end.
  \<open>acc\<close> is the text since the last match, reversed.\<close>

function split_from :: "regex \<Rightarrow> string \<Rightarrow> char option \<Rightarrow> string \<Rightarrow> string list" where
  "split_from r acc c s =
    (case match_nonempty r (c, s) of
       Some m \<Rightarrow>
         rev acc # (case m_group m 1 of None \<Rightarrow> [] | Some t \<Rightarrow> t)
           # split_from r [] (fst (m_end m)) (snd (m_end m))
     | None \<Rightarrow>
         (case s of [] \<Rightarrow> [rev acc] | x # xs \<Rightarrow> split_from r (x # acc) (Some x) xs))"
  by pat_completeness auto
termination
  by (relation "measure (\<lambda>(r, acc, c, s). length s)")
     (auto dest: match_nonempty_shorter simp: case_prod_beta)

definition re_split :: "regex \<Rightarrow> string \<Rightarrow> string list" where
  "re_split r s = split_from r [] None s"

declare sub_from.simps [simp del]

declare split_from.simps [simp del]

subsection \<open>Writing patterns\<close>

definition re_seq :: "regex list \<Rightarrow> regex" where
  "re_seq rs = foldr Cat rs Eps"

definition re_lit_ci :: "string \<Rightarrow> regex" where
  "re_lit_ci s = foldr (\<lambda>a r. Cat (Sym (ci a)) r) s Eps"

definition re_star :: "(char \<Rightarrow> bool) \<Rightarrow> regex" where
  "re_star p = Rep p 0 None True"

definition re_plus :: "(char \<Rightarrow> bool) \<Rightarrow> regex" where
  "re_plus p = Rep p 1 None True"

definition re_opt :: "(char \<Rightarrow> bool) \<Rightarrow> regex" where
  "re_opt p = Rep p 0 (Some 1) True"

definition re_lazy_star :: "(char \<Rightarrow> bool) \<Rightarrow> regex" where
  "re_lazy_star p = Rep p 0 None False"

definition re_times :: "(char \<Rightarrow> bool) \<Rightarrow> nat \<Rightarrow> nat \<Rightarrow> regex" where
  "re_times p lo hi = Rep p lo (Some hi) True"

section \<open>Numbers from text\<close>

datatype py_error = ValueError | TypeError

definition digit_val :: "char \<Rightarrow> nat" where
  "digit_val c = of_char c - of_char CHR ''0''"

definition digits_val :: "string \<Rightarrow> nat" where
  "digits_val s = foldl (\<lambda>a c. 10 * a + digit_val c) 0 s"

text \<open>
  \<^verbatim>\<open>float(x)\<close> on a string. The program passes it the text of a capturing group
  (\<^verbatim>\<open>\d+\<close>, \<^verbatim>\<open>[\d.]+\<close>, or \<^verbatim>\<open>[\d.,]+\<close> with commas replaced by dots) and nothing else, so
  it is embedded on strings of digits and dots: such a string is a float literal if and
  only if it has at most one dot and at least one digit. \<^verbatim>\<open>int(x)\<close> is only applied to a
  group of one or two digits, where it is \<open>digits_val\<close>.
\<close>

definition py_float :: "string \<Rightarrow> py_error + real" where
  "py_float s =
    (let a = takeWhile is_digit s; r = dropWhile is_digit s
     in case r of
          [] \<Rightarrow> if a = [] then Inl ValueError else Inr (real (digits_val a))
        | d # b \<Rightarrow>
            if d = CHR ''.'' \<and> list_all is_digit b \<and> \<not> (a = [] \<and> b = [])
            then Inr (real (digits_val a) + real (digits_val b) / 10 ^ length b)
            else Inl ValueError)"

text \<open>\<^verbatim>\<open>round(x)\<close> with one argument: to the nearest integer, a tie to the even one.\<close>

definition py_round :: "real \<Rightarrow> int" where
  "py_round x =
    (let f = \<lfloor>x\<rfloor>; d = x - real_of_int f
     in if d < 1 / 2 then f else if 1 / 2 < d then f + 1 else if even f then f else f + 1)"

text \<open>\<^verbatim>\<open>str(n)\<close> for a non-negative int and the format \<^verbatim>\<open>{n:02d}\<close>, used by the manual-entry
  form to show a parsed time as \<^verbatim>\<open>f"{sec//60}:{sec%60:02d}"\<close>.\<close>

definition digit_chr :: "nat \<Rightarrow> char" where
  "digit_chr d = char_of (of_char CHR ''0'' + d)"

fun str_nat :: "nat \<Rightarrow> string" where
  "str_nat n = (if n < 10 then [digit_chr n] else str_nat (n div 10) @ [digit_chr (n mod 10)])"

declare str_nat.simps [simp del]

definition format_02d :: "nat \<Rightarrow> string" where
  "format_02d n = (if n < 10 then CHR ''0'' # str_nat n else str_nat n)"

definition format_time :: "int \<Rightarrow> string" where
  "format_time sec = str_nat (nat (sec div 60)) @ '':'' @ format_02d (nat (sec mod 60))"

section \<open>Extraction\<close>

subsection \<open>\<^verbatim>\<open>parse_time_to_seconds\<close>\<close>

text \<open>\<^verbatim>\<open>^(\d{1,2}):(\d{2})$\<close>\<close>

definition TIME_RE :: regex where
  "TIME_RE =
    re_seq [Bol, Grp 1 (re_times is_digit 1 2), Sym (\<lambda>c. c = CHR '':''),
            Grp 2 (re_times is_digit 2 2), Eol]"

text \<open>Both groups take part in every match of the pattern, so the last case below is
  never reached.\<close>

definition parse_time_to_seconds :: "string \<Rightarrow> int option" where
  "parse_time_to_seconds s0 =
    (let s = strip s0
     in case re_match TIME_RE s of
          None \<Rightarrow> None
        | Some m \<Rightarrow>
            (case (m_group m 1, m_group m 2) of
               (Some minutes, Some seconds) \<Rightarrow>
                 Some (int (digits_val minutes) * 60 + int (digits_val seconds))
             | _ \<Rightarrow> None))"

text \<open>The shape the specification asks of a time: one or two digits of minutes, a colon,
  two digits of seconds, and nothing else.\<close>

fun time_shape :: "string \<Rightarrow> bool" where
  "time_shape [m, c, s1, s2] = (is_digit m \<and> c = CHR '':'' \<and> is_digit s1 \<and> is_digit s2)"
| "time_shape [m1, m2, c, s1, s2] =
     (is_digit m1 \<and> is_digit m2 \<and> c = CHR '':'' \<and> is_digit s1 \<and> is_digit s2)"
| "time_shape _ = False"

subsection \<open>\<^verbatim>\<open>parse_block\<close>, the same in both revisions\<close>

text \<open>\<^verbatim>\<open>[^\S\r\n]+\<close>\<close>

definition HSPACE_RE :: regex where
  "HSPACE_RE = re_plus (\<lambda>c. is_space c \<and> c \<noteq> CHR 0x0D \<and> c \<noteq> CHR 0x0A)"

text \<open>\<^verbatim>\<open>(?i)\b(SOLO|DUO|SQUAD)\b\<close>\<close>

definition MODE_RE :: regex where
  "MODE_RE =
    re_seq [WordB,
            Grp 1 (Alt (re_lit_ci ''SOLO'') (Alt (re_lit_ci ''DUO'') (re_lit_ci ''SQUAD''))),
            WordB]"

text \<open>\<^verbatim>\<open>for mode, block in zip(it, it)\<close> over the parts after the first: pairs are taken
  while two parts remain; an exception of the block parser ends the loop.\<close>

fun block_loop ::
  "(string \<Rightarrow> py_error + ModeStats option) \<Rightarrow> string list \<Rightarrow> mode_collection
    \<Rightarrow> py_error + mode_collection" where
  "block_loop parse (mode # block # rest) modes =
     (case parse block of
        Inl e \<Rightarrow> Inl e
      | Inr None \<Rightarrow> block_loop parse rest modes
      | Inr (Some parsed) \<Rightarrow> block_loop parse rest (AList.update (upper mode) parsed modes))"
| "block_loop parse _ modes = Inr modes"

text \<open>The parameter \<open>parse\<close> is the revision's \<^verbatim>\<open>parse_stats_in_text\<close>.\<close>

definition parse_block_with ::
  "(string \<Rightarrow> py_error + ModeStats option) \<Rightarrow> string \<Rightarrow> py_error + mode_collection" where
  "parse_block_with parse raw =
    (let text = re_sub HSPACE_RE '' '' raw;
         parts = re_split MODE_RE text
     in if 1 < length parts then block_loop parse (tl parts) []
        else (case parse text of
                Inl e \<Rightarrow> Inl e
              | Inr None \<Rightarrow> Inr []
              | Inr (Some parsed) \<Rightarrow> Inr (AList.update ''SOLO'' parsed [])))"

subsection \<open>Revision \<^verbatim>\<open>survev_spi_app (3).py\<close>\<close>

text \<open>\<^verbatim>\<open>(?:\s*[:\-]?\s*|\s*\n\s*)\<close>\<close>

definition SEP :: regex where
  "SEP =
    Alt (re_seq [re_star is_space, re_opt (\<lambda>c. c = CHR '':'' \<or> c = CHR ''-''), re_star is_space])
        (re_seq [re_star is_space, Sym (\<lambda>c. c = CHR 0x0A), re_star is_space])"

text \<open>\<^verbatim>\<open>[\d.,]\<close>\<close>

definition num_chr :: "char \<Rightarrow> bool" where
  "num_chr c = (is_digit c \<or> c = CHR ''.'' \<or> c = CHR '','')"

text \<open>\<^verbatim>\<open>(\d+)\s*GAMES?\<close>, in both revisions\<close>

definition GAMES_A :: regex where
  "GAMES_A =
    re_seq [Grp 1 (re_plus is_digit), re_star is_space, re_lit_ci ''GAME'', re_opt (ci CHR ''S'')]"

text \<open>\<^verbatim>\<open>\bGAMES?\b(?:\s*[:\-]?\s*|\s*\n\s*)(\d+)\<close>\<close>

definition GAMES_B :: regex where
  "GAMES_B =
    re_seq [WordB, re_lit_ci ''GAME'', re_opt (ci CHR ''S''), WordB, SEP, Grp 1 (re_plus is_digit)]"

text \<open>\<^verbatim>\<open>\bKILLS?\b(?:\s*[:\-]?\s*|\s*\n\s*)(\d+)\<close>\<close>

definition KILLS_RE :: regex where
  "KILLS_RE =
    re_seq [WordB, re_lit_ci ''KILL'', re_opt (ci CHR ''S''), WordB, SEP, Grp 1 (re_plus is_digit)]"

text \<open>\<^verbatim>\<open>\bWIN\s*%?(?:\s*[:\-]?\s*|\s*\n\s*)([\d.,]+)\<close>\<close>

definition WIN_RE :: regex where
  "WIN_RE =
    re_seq [WordB, re_lit_ci ''WIN'', re_star is_space, re_opt (\<lambda>c. c = CHR ''%''), SEP,
            Grp 1 (re_plus num_chr)]"

text \<open>\<^verbatim>\<open>\bAVG\s*SURVIVED\b(?:\s*[:\-]?\s*|\s*\n\s*)(\d{1,2}:\d{2})\<close>\<close>

definition SURVIVED_RE :: regex where
  "SURVIVED_RE =
    re_seq [WordB, re_lit_ci ''AVG'', re_star is_space, re_lit_ci ''SURVIVED'', WordB, SEP,
            Grp 1 (re_seq [re_times is_digit 1 2, Sym (\<lambda>c. c = CHR '':''),
                           re_times is_digit 2 2])]"

text \<open>\<^verbatim>\<open>\bAVG\s*DAMAGE\b(?:\s*[:\-]?\s*|\s*\n\s*)([\d.,]+)\<close>\<close>

definition DAMAGE_RE :: regex where
  "DAMAGE_RE =
    re_seq [WordB, re_lit_ci ''AVG'', re_star is_space, re_lit_ci ''DAMAGE'', WordB, SEP,
            Grp 1 (re_plus num_chr)]"

text \<open>\<^verbatim>\<open>\bK/?G\b(?:\s*[:\-]?\s*|\s*\n\s*)([\d.,]+)\<close>\<close>

definition KG_RE :: regex where
  "KG_RE =
    re_seq [WordB, Sym (ci CHR ''K''), re_opt (\<lambda>c. c = CHR ''/''), Sym (ci CHR ''G''), WordB, SEP,
            Grp 1 (re_plus num_chr)]"

text \<open>\<^verbatim>\<open>_take\<close>: group 1 of the first pattern that is found.\<close>

fun priv_take :: "string \<Rightarrow> regex list \<Rightarrow> string option" where
  "priv_take s [] = None"
| "priv_take s (p # ps) =
     (case re_search p s of
        Some m \<Rightarrow> m_group m 1
      | None \<Rightarrow> priv_take s ps)"

text \<open>\<^verbatim>\<open>x.replace(",", ".")\<close>\<close>

definition comma_to_dot :: "string \<Rightarrow> string" where
  "comma_to_dot x = map (\<lambda>c. if c = CHR '','' then CHR ''.'' else c) x"

text \<open>\<^verbatim>\<open>_num\<close>: the bare \<^verbatim>\<open>except\<close> turns every exception of \<^verbatim>\<open>float\<close> into \<^verbatim>\<open>None\<close>.\<close>

definition priv_num :: "string option \<Rightarrow> real option" where
  "priv_num x =
    (case x of
       None \<Rightarrow> None
     | Some x' \<Rightarrow>
        (case py_float (comma_to_dot (strip x')) of Inl e \<Rightarrow> None | Inr v \<Rightarrow> Some v))"

text \<open>\<^verbatim>\<open>float(v)\<close> on what \<^verbatim>\<open>_num\<close> returned: \<^verbatim>\<open>float(None)\<close> raises \<^verbatim>\<open>TypeError\<close>.\<close>

definition float_of_optional :: "real option \<Rightarrow> py_error + real" where
  "float_of_optional v = (case v of None \<Rightarrow> Inl TypeError | Some r \<Rightarrow> Inr r)"

text \<open>The variable \<^verbatim>\<open>games\<close> holds the matched text, or the quotient of the fallback.\<close>

datatype py_val = Str string | Flt real

definition float_of_val :: "py_val \<Rightarrow> py_error + real" where
  "float_of_val v = (case v of Str s \<Rightarrow> py_float s | Flt r \<Rightarrow> Inr r)"

text \<open>
  The fallback for \<^verbatim>\<open>games\<close>:
  \<^verbatim>\<open>float(kills) / float(kg.replace(",", "."))\<close> inside \<^verbatim>\<open>try\<close>; \<^verbatim>\<open>ValueError\<close> and
  \<^verbatim>\<open>ZeroDivisionError\<close> both end in \<^verbatim>\<open>games = None\<close>. The test \<^verbatim>\<open>if kills and kg\<close> fails for
  \<^verbatim>\<open>None\<close> and for the empty string.
\<close>

definition games_fallback_3 :: "string \<Rightarrow> string option \<Rightarrow> py_val option" where
  "games_fallback_3 s kills0 =
    (let kg = priv_take s [KG_RE]
     in case (kills0, kg) of
          (Some k, Some q) \<Rightarrow>
            if k \<noteq> [] \<and> q \<noteq> [] then
              (case (py_float k, py_float (comma_to_dot q)) of
                 (Inr a, Inr b) \<Rightarrow> if b = 0 then None else Some (Flt (a / b))
               | _ \<Rightarrow> None)
            else None
        | _ \<Rightarrow> None)"

text \<open>The five local variables of \<^verbatim>\<open>parse_stats_in_text\<close> when it reaches its
  \<^verbatim>\<open>any(v is None ...)\<close> test.\<close>

record fields_3 =
  f3_games :: "py_val option"
  f3_kills :: "string option"
  f3_win_pct :: "string option"
  f3_avg_survived_sec :: "int option"
  f3_avg_damage :: "string option"

definition extract_fields_3 :: "string \<Rightarrow> fields_3" where
  "extract_fields_3 s =
    (let games0 = priv_take s [GAMES_A, GAMES_B];
         kills0 = priv_take s [KILLS_RE];
         win_pct0 = priv_take s [WIN_RE];
         t = priv_take s [SURVIVED_RE];
         avg_survived_sec0 =
           (case t of None \<Rightarrow> None
            | Some t' \<Rightarrow> if t' \<noteq> [] then parse_time_to_seconds t' else None);
         avg_damage0 = priv_take s [DAMAGE_RE];
         games1 = (case games0 of None \<Rightarrow> games_fallback_3 s kills0 | Some g \<Rightarrow> Some (Str g))
     in \<lparr> f3_games = games1, f3_kills = kills0, f3_win_pct = win_pct0,
          f3_avg_survived_sec = avg_survived_sec0, f3_avg_damage = avg_damage0 \<rparr>)"

text \<open>The call \<^verbatim>\<open>ModeStats(games=int(round(float(games))), ...)\<close>; its arguments are
  evaluated from left to right.\<close>

definition convert_3 ::
  "py_val \<Rightarrow> string \<Rightarrow> string \<Rightarrow> int \<Rightarrow> string \<Rightarrow> py_error + ModeStats" where
  "convert_3 g k w a d =
    (case float_of_val g of Inl e \<Rightarrow> Inl e | Inr g' \<Rightarrow>
     case py_float k of Inl e \<Rightarrow> Inl e | Inr k' \<Rightarrow>
     case float_of_optional (priv_num (Some w)) of Inl e \<Rightarrow> Inl e | Inr w' \<Rightarrow>
     case float_of_optional (priv_num (Some d)) of Inl e \<Rightarrow> Inl e | Inr d' \<Rightarrow>
       Inr \<lparr> games = py_round g', kills = py_round k', win_pct = w',
             avg_survived_sec = a, avg_damage = d' \<rparr>)"

definition parse_stats_in_text_3 :: "string \<Rightarrow> py_error + ModeStats option" where
  "parse_stats_in_text_3 s =
    (let f = extract_fields_3 s
     in case (f3_games f, f3_kills f, f3_win_pct f, f3_avg_survived_sec f, f3_avg_damage f) of
          (Some g, Some k, Some w, Some a, Some d) \<Rightarrow>
            (case convert_3 g k w a d of Inl e \<Rightarrow> Inl e | Inr ms \<Rightarrow> Inr (Some ms))
        | _ \<Rightarrow> Inr None)"

definition parse_block_3 :: "string \<Rightarrow> py_error + mode_collection" where
  "parse_block_3 raw = parse_block_with parse_stats_in_text_3 raw"

subsection \<open>Revision \<^verbatim>\<open>survev_spi_app.py\<close>\<close>

text \<open>\<^verbatim>\<open>.\<close> without \<^verbatim>\<open>re.S\<close>, and \<^verbatim>\<open>[\d.]\<close>\<close>

definition any_chr :: "char \<Rightarrow> bool" where
  "any_chr c = (c \<noteq> CHR 0x0A)"

definition dec_chr :: "char \<Rightarrow> bool" where
  "dec_chr c = (is_digit c \<or> c = CHR ''.'')"

text \<open>\<^verbatim>\<open>\bGames?\b.*?(\d+)\<close>\<close>

definition GAMES_B1 :: regex where
  "GAMES_B1 =
    re_seq [WordB, re_lit_ci ''Game'', re_opt (ci CHR ''s''), WordB, re_lazy_star any_chr,
            Grp 1 (re_plus is_digit)]"

text \<open>\<^verbatim>\<open>\bKILLS?\b.*?(\d+)\<close>\<close>

definition KILLS_RE1 :: regex where
  "KILLS_RE1 =
    re_seq [WordB, re_lit_ci ''KILL'', re_opt (ci CHR ''S''), WordB, re_lazy_star any_chr,
            Grp 1 (re_plus is_digit)]"

text \<open>\<^verbatim>\<open>\bWIN\s*%?\b.*?([\d.]+)\<close>\<close>

definition WIN_RE1 :: regex where
  "WIN_RE1 =
    re_seq [WordB, re_lit_ci ''WIN'', re_star is_space, re_opt (\<lambda>c. c = CHR ''%''), WordB,
            re_lazy_star any_chr, Grp 1 (re_plus dec_chr)]"

text \<open>\<^verbatim>\<open>\bAVG\s*SURVIVED\b.*?(\d{1,2}:\d{2})\<close>\<close>

definition SURVIVED_RE1 :: regex where
  "SURVIVED_RE1 =
    re_seq [WordB, re_lit_ci ''AVG'', re_star is_space, re_lit_ci ''SURVIVED'', WordB,
            re_lazy_star any_chr,
            Grp 1 (re_seq [re_times is_digit 1 2, Sym (\<lambda>c. c = CHR '':''),
                           re_times is_digit 2 2])]"

text \<open>\<^verbatim>\<open>\bAVG\s*DAMAGE\b.*?([\d.]+)\<close>\<close>

definition DAMAGE_RE1 :: regex where
  "DAMAGE_RE1 =
    re_seq [WordB, re_lit_ci ''AVG'', re_star is_space, re_lit_ci ''DAMAGE'', WordB,
            re_lazy_star any_chr, Grp 1 (re_plus dec_chr)]"

text \<open>\<^verbatim>\<open>\bK/?G\b.*?([\d.]+)\<close>\<close>

definition KG_RE1 :: regex where
  "KG_RE1 =
    re_seq [WordB, Sym (ci CHR ''K''), re_opt (\<lambda>c. c = CHR ''/''), Sym (ci CHR ''G''), WordB,
            re_lazy_star any_chr, Grp 1 (re_plus dec_chr)]"

text \<open>\<^verbatim>\<open>find_number\<close>: \<^verbatim>\<open>float(m.group(1))\<close> is not guarded, its \<^verbatim>\<open>ValueError\<close> leaves the
  function.\<close>

definition find_number :: "regex \<Rightarrow> string \<Rightarrow> py_error + real option" where
  "find_number pattern s =
    (case re_search pattern s of
       None \<Rightarrow> Inr None
     | Some m \<Rightarrow>
        (case m_group m 1 of
           None \<Rightarrow> Inl TypeError
         | Some t \<Rightarrow> (case py_float t of Inl e \<Rightarrow> Inl e | Inr v \<Rightarrow> Inr (Some v))))"

record fields_1 =
  f1_games :: "real option"
  f1_kills :: "real option"
  f1_win_pct :: "real option"
  f1_avg_survived_sec :: "int option"
  f1_avg_damage :: "real option"

text \<open>
  The statements of \<^verbatim>\<open>parse_stats_in_text\<close> up to its \<^verbatim>\<open>any(v is None ...)\<close> test, in
  order. \<^verbatim>\<open>a or b\<close> evaluates \<^verbatim>\<open>b\<close> when \<^verbatim>\<open>a\<close> is \<^verbatim>\<open>None\<close> or \<^verbatim>\<open>0.0\<close>; \<^verbatim>\<open>if ... and kg\<close>
  fails for \<^verbatim>\<open>None\<close> and for \<^verbatim>\<open>0.0\<close>, which guards the division.
\<close>

definition extract_fields_1 :: "string \<Rightarrow> py_error + fields_1" where
  "extract_fields_1 s =
    (case find_number GAMES_A s of Inl e \<Rightarrow> Inl e | Inr g1 \<Rightarrow>
     case (if g1 = None \<or> g1 = Some 0 then find_number GAMES_B1 s else Inr g1) of
       Inl e \<Rightarrow> Inl e | Inr games0 \<Rightarrow>
     case find_number KILLS_RE1 s of Inl e \<Rightarrow> Inl e | Inr kills0 \<Rightarrow>
     case find_number WIN_RE1 s of Inl e \<Rightarrow> Inl e | Inr win_pct0 \<Rightarrow>
     let time_match = re_search SURVIVED_RE1 s;
         avg_survived_sec0 =
           (case time_match of None \<Rightarrow> None
            | Some m \<Rightarrow> (case m_group m 1 of None \<Rightarrow> None
                         | Some t \<Rightarrow> parse_time_to_seconds t))
     in
     case find_number DAMAGE_RE1 s of Inl e \<Rightarrow> Inl e | Inr avg_damage0 \<Rightarrow>
     case (if games0 = None
           then (case find_number KG_RE1 s of Inl e \<Rightarrow> Inl e
                 | Inr kg \<Rightarrow>
                    (case (kills0, kg) of
                       (Some k, Some q) \<Rightarrow> if q = 0 then Inr None else Inr (Some (k / q))
                     | _ \<Rightarrow> Inr None))
           else Inr games0) of
       Inl e \<Rightarrow> Inl e | Inr games1 \<Rightarrow>
     Inr \<lparr> f1_games = games1, f1_kills = kills0, f1_win_pct = win_pct0,
           f1_avg_survived_sec = avg_survived_sec0, f1_avg_damage = avg_damage0 \<rparr>)"

definition parse_stats_in_text_1 :: "string \<Rightarrow> py_error + ModeStats option" where
  "parse_stats_in_text_1 s =
    (case extract_fields_1 s of
       Inl e \<Rightarrow> Inl e
     | Inr f \<Rightarrow>
        (case (f1_games f, f1_kills f, f1_win_pct f, f1_avg_survived_sec f, f1_avg_damage f) of
           (Some g, Some k, Some w, Some a, Some d) \<Rightarrow>
             Inr (Some \<lparr> games = py_round g, kills = py_round k, win_pct = w,
                         avg_survived_sec = a, avg_damage = d \<rparr>)
         | _ \<Rightarrow> Inr None))"

definition parse_block_1 :: "string \<Rightarrow> py_error + mode_collection" where
  "parse_block_1 raw = parse_block_with parse_stats_in_text_1 raw"

section \<open>Notions used in the statements\<close>

text \<open>The fixed set of mode names of the specification.\<close>

definition MODE_NAMES :: "string set" where
  "MODE_NAMES = {''SOLO'', ''DUO'', ''SQUAD''}"

text \<open>The values that \<^verbatim>\<open>mode\<close> and \<^verbatim>\<open>block\<close> take in the loop of \<^verbatim>\<open>parse_block\<close>, given the
  parts after the first.\<close>

fun mode_pairs :: "string list \<Rightarrow> (string \<times> string) list" where
  "mode_pairs (mode # block # rest) = (mode, block) # mode_pairs rest"
| "mode_pairs _ = []"

text \<open>The blocks that \<^verbatim>\<open>parse_block\<close> hands to \<^verbatim>\<open>parse_stats_in_text\<close>, each with the header
  it follows; a text without a header is one block under \<^verbatim>\<open>SOLO\<close>.\<close>

definition headed_blocks :: "string \<Rightarrow> (string \<times> string) list" where
  "headed_blocks raw =
    (let text = re_sub HSPACE_RE '' '' raw;
         parts = re_split MODE_RE text
     in if 1 < length parts then mode_pairs (tl parts) else [(''SOLO'', text)])"

text \<open>A pattern without a capturing group.\<close>

fun no_group :: "regex \<Rightarrow> bool" where
  "no_group (Grp n r) = False"
| "no_group (Cat a b) = (no_group a \<and> no_group b)"
| "no_group (Alt a b) = (no_group a \<and> no_group b)"
| "no_group _ = True"

text \<open>Every match of the pattern sets group 1 to a text with the property \<open>P\<close>.\<close>

definition captures :: "regex \<Rightarrow> (string \<Rightarrow> bool) \<Rightarrow> bool" where
  "captures r P =
    (\<forall>cur g cur' g'. (cur', g') \<in> set (rmatch r cur g) \<longrightarrow> (\<exists>t. g' 1 = Some t \<and> P t))"

section \<open>Properties of the scoring core\<close>






text \<open>The survival component and the cap.\<close>

lemma survival_formula:
  "Survival (spi_components ms) = (real_of_int (min (avg_survived_sec ms) 180) / 180) * 50"
  by (simp add: spi_components_def SURVIVAL_CAP_SEC_def)

lemma base_unbounded: "\<exists>ms. valid_ModeStats ms \<and> B < Base (spi_components ms)"
proof -
  define k where "k = max 0 (\<lceil>B\<rceil> + 1)"
  let ?m = "\<lparr>games = 1, kills = k, win_pct = 0, avg_survived_sec = 0, avg_damage = 0\<rparr>"
  have k0: "0 \<le> k" by (simp add: k_def)
  have "B < real_of_int k" unfolding k_def by linarith
  moreover have "0 \<le> real_of_int k" using k0 by simp
  ultimately have "B < real_of_int k * 100" by linarith
  then have "B < Base (spi_components ?m)" by (simp add: spi_components_def)
  moreover have "valid_ModeStats ?m" using k0 by (simp add: valid_ModeStats_def)
  ultimately show ?thesis by blast
qed

lemma damage_unbounded: "\<exists>ms. valid_ModeStats ms \<and> B < Damage (spi_components ms)"
proof -
  let ?d = "max 0 (B * 25 + 1)"
  let ?m = "\<lparr>games = 0, kills = 0, win_pct = 0, avg_survived_sec = 0, avg_damage = ?d\<rparr>"
  have "B < ?d / 500 * 40" by (simp add: max_def)
  then have "B < Damage (spi_components ?m)" by (simp add: spi_components_def)
  moreover have "valid_ModeStats ?m" by (simp add: valid_ModeStats_def)
  ultimately show ?thesis by blast
qed

lemma win_bonus_unbounded: "\<exists>ms. valid_ModeStats ms \<and> B < WinBonus (spi_components ms)"
proof -
  let ?d = "max 0 (B + 1)"
  let ?m = "\<lparr>games = 0, kills = 0, win_pct = ?d, avg_survived_sec = 0, avg_damage = 0\<rparr>"
  have "B < ?d * 2" by (simp add: max_def)
  then have "B < WinBonus (spi_components ?m)" by (simp add: spi_components_def)
  moreover have "valid_ModeStats ?m" by (simp add: valid_ModeStats_def)
  ultimately show ?thesis by blast
qed

text \<open>
  Claim C2. For every \<open>ModeStats\<close> with \<open>avg_survived_sec \<ge> 0\<close> the survival component is
  \<open>min(avg_survived_sec, 180) / 180 * 50\<close> and lies in \<open>[0, 50]\<close>; 500 and 180 seconds both
  give exactly 50. The other three components are the unclamped formulas, and each takes
  values above any bound on stats that satisfy the data-model invariant.
\<close>

theorem survival_component_capped:
  assumes "0 \<le> avg_survived_sec ms"
  shows "Survival (spi_components ms) = (real_of_int (min (avg_survived_sec ms) 180) / 180) * 50
    \<and> 0 \<le> Survival (spi_components ms) \<and> Survival (spi_components ms) \<le> 50
    \<and> Survival (spi_components (ms\<lparr>avg_survived_sec := 500\<rparr>)) = 50
    \<and> Survival (spi_components (ms\<lparr>avg_survived_sec := 180\<rparr>)) = 50
    \<and> Base (spi_components ms)
        = (if 0 < games ms then real_of_int (kills ms) / real_of_int (games ms) * 100 else 0)
    \<and> Damage (spi_components ms) = avg_damage ms / 500 * 40
    \<and> WinBonus (spi_components ms) = win_pct ms * 2
    \<and> (\<forall>B. \<exists>m. valid_ModeStats m \<and> B < Base (spi_components m))
    \<and> (\<forall>B. \<exists>m. valid_ModeStats m \<and> B < Damage (spi_components m))
    \<and> (\<forall>B. \<exists>m. valid_ModeStats m \<and> B < WinBonus (spi_components m))"
proof -
  have lo: "0 \<le> real_of_int (min (avg_survived_sec ms) 180)" using assms by simp
  have hi: "real_of_int (min (avg_survived_sec ms) 180) \<le> 180" by simp
  have "0 \<le> Survival (spi_components ms)" "Survival (spi_components ms) \<le> 50"
    using lo hi unfolding survival_formula by linarith+
  moreover have "Survival (spi_components (ms\<lparr>avg_survived_sec := 500\<rparr>)) = 50"
    "Survival (spi_components (ms\<lparr>avg_survived_sec := 180\<rparr>)) = 50"
    by (simp_all add: survival_formula)
  moreover have "Base (spi_components ms)
        = (if 0 < games ms then real_of_int (kills ms) / real_of_int (games ms) * 100 else 0)"
    "Damage (spi_components ms) = avg_damage ms / 500 * 40"
    "WinBonus (spi_components ms) = win_pct ms * 2"
    by (simp_all add: spi_components_def)
  ultimately show ?thesis
    using survival_formula base_unbounded damage_unbounded win_bonus_unbounded by blast
qed

theorem survival_component_capped_witness:
  "0 \<le> avg_survived_sec \<lparr>games = 10, kills = 20, win_pct = 5, avg_survived_sec = 90, avg_damage = 250\<rparr>
   \<and> Survival (spi_components
        \<lparr>games = 10, kills = 20, win_pct = 5, avg_survived_sec = 90, avg_damage = 250\<rparr>) = 25
   \<and> Survival (spi_components
        \<lparr>games = 10, kills = 20, win_pct = 5, avg_survived_sec = 500, avg_damage = 250\<rparr>) = 50"
proof -
  let ?m = "\<lparr>games = 10, kills = 20, win_pct = 5, avg_survived_sec = 90, avg_damage = 250\<rparr>"
  have h: "0 \<le> avg_survived_sec ?m" by simp
  show ?thesis
    using survival_component_capped [OF h] by simp
qed

text \<open>The tier loop, unrolled over the seven entries of \<open>TIERS\<close>.\<close>

lemma tier_from_score_cases:
  "tier_from_score s =
    (if 750 \<le> s then ''Grandmaster''
     else if 650 \<le> s then ''Master''
     else if 550 \<le> s then ''Diamond''
     else if 450 \<le> s then ''Platinum''
     else if 350 \<le> s then ''Gold''
     else if 250 \<le> s then ''Silver''
     else ''Bronze'')"
  by (simp add: tier_from_score_def TIERS_def)

text \<open>
  Claim C3. \<open>tier_from_score\<close> returns the first tier, in descending order of threshold,
  whose threshold the score reaches: 750 is Grandmaster, 749.999 is Master, and every
  score below 250, however negative, is Bronze.
\<close>

theorem tier_from_score_thresholds:
  "tier_from_score 750 = ''Grandmaster''
   \<and> tier_from_score 749.999 = ''Master''
   \<and> (\<forall>s. s < 250 \<longrightarrow> tier_from_score s = ''Bronze'')
   \<and> (\<forall>s. tier_from_score s =
        (if 750 \<le> s then ''Grandmaster''
         else if 650 \<le> s then ''Master''
         else if 550 \<le> s then ''Diamond''
         else if 450 \<le> s then ''Platinum''
         else if 350 \<le> s then ''Gold''
         else if 250 \<le> s then ''Silver''
         else ''Bronze''))"
  by (simp add: tier_from_score_cases)

theorem tier_from_score_thresholds_witness:
  "(-5 :: real) < 250 \<and> tier_from_score (-5) = ''Bronze''
   \<and> (- (2 * 10 ^ 9) :: real) < 250 \<and> tier_from_score (- (2 * 10 ^ 9)) = ''Bronze''"
  using tier_from_score_thresholds by simp


lemma sum_games_filter:
  "sum_list (map (\<lambda>m. games m) (map snd (filter (\<lambda>(k, m). games m \<noteq> 0) modes)))
   = sum_list (map (\<lambda>m. games m) (map snd modes))"
  by (induction modes) auto

lemma sum_weighted_filter:
  "sum_list (map (\<lambda>m. adj_spi m * real_of_int (games m))
      (map snd (filter (\<lambda>(k, m). games m \<noteq> 0) modes)))
   = sum_list (map (\<lambda>m. adj_spi m * real_of_int (games m)) (map snd modes))"
  by (induction modes) auto

lemma overall_adj_spi_filter:
  "overall_adj_spi (filter (\<lambda>(k, m). games m \<noteq> 0) modes) = overall_adj_spi modes"
  unfolding overall_adj_spi_def sum_games_filter sum_weighted_filter ..

text \<open>
  Claim C4. \<open>overall_adj_spi\<close> is 0 when the games of all modes sum to 0, and otherwise the
  games-weighted mean of the adjusted scores. A mode with no games contributes nothing:
  dropping such modes leaves the result unchanged, and SOLO with 100 games and adjusted
  score 400 next to a DUO with 0 games gives exactly 400.
\<close>

theorem overall_adj_spi_weighted_mean:
  "(sum_list (map (\<lambda>(k, m). games m) modes) = 0 \<longrightarrow> overall_adj_spi modes = 0)
   \<and> (sum_list (map (\<lambda>(k, m). games m) modes) \<noteq> 0 \<longrightarrow>
        overall_adj_spi modes
          = sum_list (map (\<lambda>(k, m). adj_spi m * real_of_int (games m)) modes)
              / real_of_int (sum_list (map (\<lambda>(k, m). games m) modes)))
   \<and> overall_adj_spi (filter (\<lambda>(k, m). games m \<noteq> 0) modes) = overall_adj_spi modes
   \<and> (games solo = 100 \<and> adj_spi solo = 400 \<and> games duo = 0 \<longrightarrow>
        overall_adj_spi [(''SOLO'', solo), (''DUO'', duo)] = 400
        \<and> overall_adj_spi [(''SOLO'', solo), (''DUO'', duo)] = overall_adj_spi [(''SOLO'', solo)])"
proof -
  have g: "map (\<lambda>m. games m) (map snd modes) = map (\<lambda>(k, m). games m) modes"
    by (induction modes) auto
  have w: "map (\<lambda>m. adj_spi m * real_of_int (games m)) (map snd modes)
           = map (\<lambda>(k, m). adj_spi m * real_of_int (games m)) modes"
    by (induction modes) auto
  have a: "sum_list (map (\<lambda>(k, m). games m) modes) = 0 \<longrightarrow> overall_adj_spi modes = 0"
    unfolding overall_adj_spi_def g by (simp add: Let_def)
  have b: "sum_list (map (\<lambda>(k, m). games m) modes) \<noteq> 0 \<longrightarrow>
        overall_adj_spi modes
          = sum_list (map (\<lambda>(k, m). adj_spi m * real_of_int (games m)) modes)
              / real_of_int (sum_list (map (\<lambda>(k, m). games m) modes))"
    unfolding overall_adj_spi_def g w by (simp add: Let_def)
  have c: "games solo = 100 \<and> adj_spi solo = 400 \<and> games duo = 0 \<longrightarrow>
        overall_adj_spi [(''SOLO'', solo), (''DUO'', duo)] = 400
        \<and> overall_adj_spi [(''SOLO'', solo), (''DUO'', duo)] = overall_adj_spi [(''SOLO'', solo)]"
    by (simp add: overall_adj_spi_def)
  show ?thesis using a b c overall_adj_spi_filter by blast
qed

theorem overall_adj_spi_weighted_mean_witness:
  "adj_spi \<lparr>games = 100, kills = 400, win_pct = 0, avg_survived_sec = 180, avg_damage = 0\<rparr> = 400
   \<and> overall_adj_spi
       [(''SOLO'', \<lparr>games = 100, kills = 400, win_pct = 0, avg_survived_sec = 180, avg_damage = 0\<rparr>),
        (''DUO'', \<lparr>games = 0, kills = 7, win_pct = 50, avg_survived_sec = 500, avg_damage = 900\<rparr>)]
      = 400
   \<and> overall_adj_spi
       [(''SOLO'', \<lparr>games = 100, kills = 400, win_pct = 0, avg_survived_sec = 180, avg_damage = 0\<rparr>)]
      = 400
   \<and> overall_adj_spi
       [(''SOLO'', \<lparr>games = 0, kills = 1, win_pct = 0, avg_survived_sec = 0, avg_damage = 0\<rparr>)]
      = 0"
proof -
  let ?solo = "\<lparr>games = 100, kills = 400, win_pct = 0, avg_survived_sec = 180, avg_damage = 0\<rparr>"
  let ?duo = "\<lparr>games = 0, kills = 7, win_pct = 50, avg_survived_sec = 500, avg_damage = 900\<rparr>"
  let ?z = "\<lparr>games = 0, kills = 1, win_pct = 0, avg_survived_sec = 0, avg_damage = 0\<rparr>"
  have a: "adj_spi ?solo = 400"
    by (simp add: adj_spi_def spi_def spi_components_def SURVIVAL_CAP_SEC_def
        CONFIDENCE_CONST_def NEUTRAL_BASELINE_def)
  have h: "games ?solo = 100 \<and> adj_spi ?solo = 400 \<and> games ?duo = 0" using a by simp
  have z: "sum_list (map (\<lambda>(k, m). games m) [(''SOLO'', ?z)]) = 0" by simp
  show ?thesis
    using overall_adj_spi_weighted_mean [of "[(''SOLO'', ?z)]" ?solo ?duo] h z by simp
qed

section \<open>Properties of \<^verbatim>\<open>parse_time_to_seconds\<close>\<close>

lemma digit_not_colon: "is_digit c \<Longrightarrow> c \<noteq> CHR '':''"
  by (auto simp: is_digit_def)

lemma digit_not_space: "is_digit c \<Longrightarrow> \<not> is_space c"
  by (auto simp: is_digit_def is_space_def)

lemma lf_space: "is_space (CHR 0x0A)"
  by (simp add: is_space_def)

lemma lf_not_digit: "\<not> is_digit (CHR 0x0A)"
  by (simp add: is_digit_def)

lemma time_re_cases:
  "re_match TIME_RE s =
    (case s of
       [a, c, d, e] \<Rightarrow>
         if is_digit a \<and> c = CHR '':'' \<and> is_digit d \<and> is_digit e
         then Some \<lparr>m_start = (None, s), m_end = (Some e, []), m_groups = [1 \<mapsto> [a], 2 \<mapsto> [d, e]]\<rparr>
         else None
     | [a, b, c, d, e] \<Rightarrow>
         if is_digit a \<and> is_digit b \<and> c = CHR '':'' \<and> is_digit d \<and> is_digit e
         then Some \<lparr>m_start = (None, s), m_end = (Some e, []), m_groups = [1 \<mapsto> [a, b], 2 \<mapsto> [d, e]]\<rparr>
         else if is_digit a \<and> b = CHR '':'' \<and> is_digit c \<and> is_digit d \<and> e = CHR 0x0A
         then Some \<lparr>m_start = (None, s), m_end = (Some d, [e]), m_groups = [1 \<mapsto> [a], 2 \<mapsto> [c, d]]\<rparr>
         else None
     | [a, b, c, d, e, f] \<Rightarrow>
         if is_digit a \<and> is_digit b \<and> c = CHR '':'' \<and> is_digit d \<and> is_digit e \<and> f = CHR 0x0A
         then Some \<lparr>m_start = (None, s), m_end = (Some e, [f]), m_groups = [1 \<mapsto> [a, b], 2 \<mapsto> [d, e]]\<rparr>
         else None
     | _ \<Rightarrow> None)"
  by (auto simp: re_match_def match_at_def TIME_RE_def re_seq_def re_times_def rep_cursors_def
      consumed_def m_group_def digit_not_colon lf_not_digit
      split: list.splits dest: digit_not_colon)


lemma strip_no_trailing_space: "strip s = xs @ [c] \<Longrightarrow> \<not> is_space c"
proof -
  assume a: "strip s = xs @ [c]"
  define t where "t = dropWhile is_space (rev (dropWhile is_space s))"
  have "rev t = xs @ [c]" using a by (simp add: strip_def t_def)
  then have "rev (rev t) = rev (xs @ [c])" by (rule arg_cong)
  then have "dropWhile is_space (rev (dropWhile is_space s)) = c # rev xs"
    by (simp add: t_def)
  then show ?thesis
    by (metis dropWhile_eq_Cons_conv)
qed

lemma dropWhile_hd: "xs \<noteq> [] \<Longrightarrow> \<not> P (hd xs) \<Longrightarrow> dropWhile P xs = xs"
  by (cases xs) auto

lemma strip_id:
  assumes "s \<noteq> []" and "\<not> is_space (hd s)" and "\<not> is_space (last s)"
  shows "strip s = s"
proof -
  have a: "dropWhile is_space s = s" using assms by (simp add: dropWhile_hd)
  have "dropWhile is_space (rev s) = rev s"
    using assms by (intro dropWhile_hd) (simp_all add: hd_rev)
  then show ?thesis by (simp add: strip_def a)
qed

lemma parse_time_iff_shape:
  "parse_time_to_seconds s \<noteq> None \<longleftrightarrow> time_shape (strip s)"
proof -
  have ns: "\<And>xs c. strip s = xs @ [c] \<Longrightarrow> c \<noteq> CHR 0x0A"
    using strip_no_trailing_space lf_space by blast
  have n5: "\<And>a b c d e. strip s = [a, b, c, d, e] \<Longrightarrow> e \<noteq> CHR 0x0A"
    using ns [of "[_, _, _, _]"] by simp
  have n6: "\<And>a b c d e f. strip s = [a, b, c, d, e, f] \<Longrightarrow> f \<noteq> CHR 0x0A"
    using ns [of "[_, _, _, _, _]"] by simp
  show ?thesis
    unfolding parse_time_to_seconds_def Let_def time_re_cases
    by (auto simp: m_group_def split: list.splits dest: n5 n6)
qed

lemma parse_time_shape4:
  assumes "is_digit a" "is_digit d" "is_digit e"
  shows "parse_time_to_seconds [a, CHR '':'', d, e]
         = Some (int (digit_val a) * 60 + int (10 * digit_val d + digit_val e))"
proof -
  have "strip [a, CHR '':'', d, e] = [a, CHR '':'', d, e]"
    using assms by (intro strip_id) (simp_all add: digit_not_space)
  then show ?thesis
    using assms
    by (simp add: parse_time_to_seconds_def time_re_cases m_group_def digits_val_def)
qed

lemma parse_time_shape5:
  assumes "is_digit a" "is_digit b" "is_digit d" "is_digit e"
  shows "parse_time_to_seconds [a, b, CHR '':'', d, e]
         = Some (int (10 * digit_val a + digit_val b) * 60 + int (10 * digit_val d + digit_val e))"
proof -
  have "strip [a, b, CHR '':'', d, e] = [a, b, CHR '':'', d, e]"
    using assms by (intro strip_id) (simp_all add: digit_not_space)
  then show ?thesis
    using assms
    by (simp add: parse_time_to_seconds_def time_re_cases m_group_def digits_val_def)
qed

lemma digit_chr_table:
  "list_all (\<lambda>n. is_digit (digit_chr n) \<and> digit_val (digit_chr n) = n) [0, 1, 2, 3, 4, 5, 6, 7, 8, 9]"
  by code_simp

lemma digit_chr_ok:
  assumes "n < 10"
  shows "is_digit (digit_chr n)" and "digit_val (digit_chr n) = n"
proof -
  have "n \<in> set [0, 1, 2, 3, 4, 5, 6, 7, 8, 9]" using assms by auto
  then have "is_digit (digit_chr n) \<and> digit_val (digit_chr n) = n"
    using digit_chr_table unfolding list_all_iff by blast
  then show "is_digit (digit_chr n)" and "digit_val (digit_chr n) = n" by simp_all
qed

lemma str_nat_one: "n < 10 \<Longrightarrow> str_nat n = [digit_chr n]"
  by (subst str_nat.simps) simp

lemma str_nat_two:
  assumes "10 \<le> n" and "n < 100"
  shows "str_nat n = [digit_chr (n div 10), digit_chr (n mod 10)]"
proof -
  have "n div 10 < 10" using assms by simp
  then have "str_nat (n div 10) = [digit_chr (n div 10)]" by (rule str_nat_one)
  moreover have "str_nat n = str_nat (n div 10) @ [digit_chr (n mod 10)]"
    using assms by (subst str_nat.simps) simp
  ultimately show ?thesis by simp
qed

lemma digit_chr_0: "digit_chr 0 = CHR ''0''"
  by code_simp

lemma format_02d_two:
  "n < 100 \<Longrightarrow> format_02d n = [digit_chr (n div 10), digit_chr (n mod 10)]"
  by (cases "n < 10") (simp_all add: format_02d_def str_nat_two str_nat_one digit_chr_0)

lemma format_time_roundtrip:
  assumes "0 \<le> n" and "n \<le> 5999"
  shows "parse_time_to_seconds (format_time n) = Some n"
proof -
  define m where "m = nat (n div 60)"
  define r where "r = nat (n mod 60)"
  have m: "m < 100" using assms by (simp add: m_def; linarith)
  have r: "r < 60" by (simp add: r_def; linarith)
  have d0: "0 \<le> n div 60" using assms by (simp add: pos_imp_zdiv_nonneg_iff)
  have r0: "0 \<le> n mod 60" by simp
  have n: "n = int m * 60 + int r"
    using d0 r0 by (simp add: m_def r_def)
  have rd: "r div 10 < 10" "r mod 10 < 10" using r by simp_all
  have fr: "format_02d r = [digit_chr (r div 10), digit_chr (r mod 10)]"
    using r by (simp add: format_02d_two)
  have rv: "10 * (r div 10) + r mod 10 = r" by simp
  show ?thesis
  proof (cases "m < 10")
    case True
    then have "format_time n = [digit_chr m, CHR '':'', digit_chr (r div 10), digit_chr (r mod 10)]"
      unfolding format_time_def m_def [symmetric] r_def [symmetric] fr
      by (simp add: str_nat_one)
    then show ?thesis
      using True rd parse_time_shape4 [of "digit_chr m" "digit_chr (r div 10)" "digit_chr (r mod 10)"]
      by (simp add: digit_chr_ok rv n)
  next
    case False
    then have md: "m div 10 < 10" "m mod 10 < 10" using m by simp_all
    have mv: "10 * (m div 10) + m mod 10 = m" by simp
    have "format_time n = [digit_chr (m div 10), digit_chr (m mod 10), CHR '':'',
                           digit_chr (r div 10), digit_chr (r mod 10)]"
      unfolding format_time_def m_def [symmetric] r_def [symmetric] fr
      using False m by (simp add: str_nat_two)
    then show ?thesis
      using md rd parse_time_shape5 [of "digit_chr (m div 10)" "digit_chr (m mod 10)"
          "digit_chr (r div 10)" "digit_chr (r mod 10)"]
      by (simp add: digit_chr_ok rv mv n)
  qed
qed

text \<open>
  Claim C9, as amended. \<open>parse_time_to_seconds "3:18"\<close> is 198; formatting any number of
  seconds from 0 to 5999 as minutes, a colon and two digits of seconds and parsing the text
  gives the number back; and the function returns a value exactly for the strings that
  have the shape after their leading and trailing whitespace is stripped.
\<close>

theorem parse_time_shape_after_strip:
  "parse_time_to_seconds ''3:18'' = Some 198
   \<and> (\<forall>n. 0 \<le> n \<and> n \<le> 5999 \<longrightarrow> parse_time_to_seconds (format_time n) = Some n)
   \<and> (\<forall>s. \<not> time_shape (strip s) \<longrightarrow> parse_time_to_seconds s = None)
   \<and> (\<forall>s. time_shape (strip s) \<longrightarrow> parse_time_to_seconds s \<noteq> None)"
proof -
  have "parse_time_to_seconds ''3:18'' = Some 198" by code_simp
  then show ?thesis
    using format_time_roundtrip parse_time_iff_shape by blast
qed

theorem parse_time_shape_after_strip_witness:
  "(0::int) \<le> 157 \<and> (157::int) \<le> 5999 \<and> format_time 157 = ''2:37''
   \<and> parse_time_to_seconds ''2:37'' = Some 157
   \<and> \<not> time_shape (strip ''123:45'') \<and> parse_time_to_seconds ''123:45'' = None
   \<and> time_shape (strip '' 3:18'') \<and> parse_time_to_seconds '' 3:18'' \<noteq> None"
proof -
  have f: "format_time 157 = ''2:37''" by code_simp
  have a: "\<not> time_shape (strip ''123:45'')" by code_simp
  have b: "time_shape (strip '' 3:18'')" by code_simp
  have "parse_time_to_seconds (format_time 157) = Some 157"
    using parse_time_shape_after_strip by simp
  then show ?thesis
    using f a b parse_time_shape_after_strip by auto
qed

text \<open>The claim as stated fails: a padded time is not of the exact shape, and is parsed.\<close>

theorem parse_time_padded_counterexample:
  "\<not> time_shape '' 3:18'' \<and> parse_time_to_seconds '' 3:18'' = Some 198"
  by code_simp

section \<open>Properties of the matcher\<close>

lemma in_rmatch_Cat:
  "(cur', g') \<in> set (rmatch (Cat a b) cur g)
   \<longleftrightarrow> (\<exists>c1 g1. (c1, g1) \<in> set (rmatch a cur g) \<and> (cur', g') \<in> set (rmatch b c1 g1))"
  by auto

lemma in_rmatch_Grp:
  "(cur', g') \<in> set (rmatch (Grp n r) cur g)
   \<longleftrightarrow> (\<exists>g1. (cur', g1) \<in> set (rmatch r cur g) \<and> g' = g1(n \<mapsto> consumed cur cur'))"
  by auto

lemma in_rmatch_WordB: "(cur', g') \<in> set (rmatch WordB cur g) \<Longrightarrow> cur' = cur \<and> g' = g"
  by (auto split: if_splits)

lemma in_rmatch_Eps: "(cur', g') \<in> set (rmatch Eps cur g) \<longleftrightarrow> cur' = cur \<and> g' = g"
  by auto

lemma match_at_Some:
  "match_at r cur = Some m \<Longrightarrow> (m_end m, m_groups m) \<in> set (rmatch r cur Map.empty)"
  by (auto simp: match_at_def split: list.splits)

lemma match_nonempty_Some:
  "match_nonempty r cur = Some m \<Longrightarrow> (m_end m, m_groups m) \<in> set (rmatch r cur Map.empty)"
  by (auto simp: match_nonempty_def split: option.splits if_splits dest: match_at_Some)

section \<open>Mode names\<close>

lemma ci_letter:
  "ci CHR ''S'' x \<Longrightarrow> upper_chr x = CHR ''S''"
  "ci CHR ''O'' x \<Longrightarrow> upper_chr x = CHR ''O''"
  "ci CHR ''L'' x \<Longrightarrow> upper_chr x = CHR ''L''"
  "ci CHR ''D'' x \<Longrightarrow> upper_chr x = CHR ''D''"
  "ci CHR ''U'' x \<Longrightarrow> upper_chr x = CHR ''U''"
  "ci CHR ''Q'' x \<Longrightarrow> upper_chr x = CHR ''Q''"
  "ci CHR ''A'' x \<Longrightarrow> upper_chr x = CHR ''A''"
  by (auto simp: ci_def lower_chr_def upper_chr_def upper_lower_def split: if_splits)

lemma mode_alt_consumed:
  assumes "(cur', g') \<in> set (rmatch (Alt (re_lit_ci ''SOLO'') (Alt (re_lit_ci ''DUO'') (re_lit_ci ''SQUAD''))) cur g)"
  shows "upper (consumed cur cur') \<in> MODE_NAMES"
  using assms
  by (cases cur)
     (auto simp: re_lit_ci_def consumed_def upper_def MODE_NAMES_def ci_letter
           split: list.splits if_splits)

lemma mode_re_group:
  assumes "(cur', g') \<in> set (rmatch MODE_RE cur g)"
  shows "\<exists>t. g' 1 = Some t \<and> upper t \<in> MODE_NAMES"
proof -
  from assms obtain c1 g1 c2 g2 c3 g3 where
    a: "(c1, g1) \<in> set (rmatch WordB cur g)" and
    b: "(c2, g2) \<in> set (rmatch (Grp 1 (Alt (re_lit_ci ''SOLO'')
                                   (Alt (re_lit_ci ''DUO'') (re_lit_ci ''SQUAD'')))) c1 g1)" and
    c: "(c3, g3) \<in> set (rmatch WordB c2 g2)" and
    d: "cur' = c3 \<and> g' = g3"
    unfolding MODE_RE_def re_seq_def foldr.simps o_apply id_apply in_rmatch_Cat in_rmatch_Eps
    by blast
  from c d have g: "g' = g2"
    using in_rmatch_WordB by blast
  from b obtain g4 where
    e: "(c2, g4) \<in> set (rmatch (Alt (re_lit_ci ''SOLO'')
                                   (Alt (re_lit_ci ''DUO'') (re_lit_ci ''SQUAD''))) c1 g1)" and
    f: "g2 = g4(1 \<mapsto> consumed c1 c2)"
    unfolding in_rmatch_Grp by blast
  show ?thesis
    using mode_alt_consumed [OF e] g f by simp
qed

lemma split_from_nonempty: "split_from r acc c s \<noteq> []"
proof (induction r acc c s rule: split_from.induct)
  case (1 r acc c s)
  then show ?case
    by (subst split_from.simps) (auto split: option.splits list.splits)
qed

lemma split_from_modes_gen:
  "r = MODE_RE \<Longrightarrow>
   list_all (\<lambda>t. upper t \<in> MODE_NAMES) (map fst (mode_pairs (tl (split_from r acc c s))))"
proof (induction r acc c s rule: split_from.induct)
  case (1 r acc c s)
  show ?case
  proof (cases "match_nonempty r (c, s)")
    case (Some m)
    obtain b bs where bs: "split_from r [] (fst (m_end m)) (snd (m_end m)) = b # bs"
      using split_from_nonempty by (meson list.exhaust)
    have ih: "list_all (\<lambda>t. upper t \<in> MODE_NAMES) (map fst (mode_pairs bs))"
      using "1.IH"(2) [OF Some "1.prems"] bs by simp
    obtain t where t: "m_group m 1 = Some t" "upper t \<in> MODE_NAMES"
      using mode_re_group [OF match_nonempty_Some [OF Some [unfolded "1.prems"]]]
      by (auto simp: m_group_def)
    have "split_from r acc c s = rev acc # t # b # bs"
      using t(1) by (subst split_from.simps) (simp add: Some bs)
    then show ?thesis using ih t by simp
  next
    case None
    show ?thesis
    proof (cases s)
      case Nil
      then have "split_from r acc c s = [rev acc]"
        using None by (subst split_from.simps) simp
      then show ?thesis by simp
    next
      case (Cons x xs)
      then have "split_from r acc c s = split_from r (x # acc) (Some x) xs"
        using None by (subst split_from.simps) simp
      then show ?thesis using "1.IH"(1) [OF None Cons "1.prems"] by simp
    qed
  qed
qed

lemma split_from_modes:
  "list_all (\<lambda>t. upper t \<in> MODE_NAMES) (map fst (mode_pairs (tl (split_from MODE_RE acc c s))))"
  by (rule split_from_modes_gen) simp

section \<open>The loop of \<^verbatim>\<open>parse_block\<close>\<close>

lemma in_update:
  "(k', v') \<in> set (AList.update k v al) \<Longrightarrow> (k', v') = (k, v) \<or> (k', v') \<in> set al"
  by (induction al) (auto split: if_splits)

lemma block_loop_entries:
  assumes "block_loop parse ps modes = Inr out" and "(k, v) \<in> set out"
  shows "(k, v) \<in> set modes
         \<or> (\<exists>(mode, block) \<in> set (mode_pairs ps). k = upper mode \<and> parse block = Inr (Some v))"
  using assms
proof (induction parse ps modes rule: block_loop.induct)
  case (1 parse mode block rest modes)
  show ?case
  proof (cases "parse block")
    case (Inl e)
    then show ?thesis using "1.prems" by simp
  next
    case (Inr r)
    show ?thesis
    proof (cases r)
      case None
      then show ?thesis using "1.IH"(1) [OF Inr None] "1.prems" Inr by auto
    next
      case (Some parsed)
      then have "(k, v) \<in> set (AList.update (upper mode) parsed modes)
         \<or> (\<exists>(mode, block) \<in> set (mode_pairs rest). k = upper mode \<and> parse block = Inr (Some v))"
        using "1.IH"(2) [OF Inr Some] "1.prems" Inr by simp
      then show ?thesis
        using Inr Some by (auto dest: in_update)
    qed
  qed
qed simp_all

lemma block_loop_distinct:
  "block_loop parse ps modes = Inr out \<Longrightarrow> distinct (map fst modes) \<Longrightarrow> distinct (map fst out)"
proof (induction parse ps modes rule: block_loop.induct)
  case (1 parse mode block rest modes)
  then show ?case
    by (auto split: sum.splits option.splits simp: distinct_update)
qed simp_all

lemma headed_blocks_modes:
  "(mode, block) \<in> set (headed_blocks raw) \<Longrightarrow> upper mode \<in> MODE_NAMES"
proof -
  assume a: "(mode, block) \<in> set (headed_blocks raw)"
  let ?ps = "tl (re_split MODE_RE (re_sub HSPACE_RE '' '' raw))"
  show ?thesis
  proof (cases "1 < length (re_split MODE_RE (re_sub HSPACE_RE '' '' raw))")
    case True
    then have "mode \<in> set (map fst (mode_pairs ?ps))"
      using a by (force simp: headed_blocks_def Let_def)
    moreover have "list_all (\<lambda>t. upper t \<in> MODE_NAMES) (map fst (mode_pairs ?ps))"
      unfolding re_split_def by (rule split_from_modes)
    ultimately show ?thesis
      unfolding list_all_iff by blast
  next
    case False
    then have "mode = ''SOLO''"
      using a by (simp add: headed_blocks_def Let_def)
    then show ?thesis by (simp add: MODE_NAMES_def upper_def upper_chr_def upper_lower_def)
  qed
qed

lemma parse_block_with_entries:
  assumes "parse_block_with parse raw = Inr out" and "(k, v) \<in> set out"
  shows "\<exists>(mode, block) \<in> set (headed_blocks raw). k = upper mode \<and> parse block = Inr (Some v)"
proof (cases "1 < length (re_split MODE_RE (re_sub HSPACE_RE '' '' raw))")
  case True
  let ?ps = "tl (re_split MODE_RE (re_sub HSPACE_RE '' '' raw))"
  have "block_loop parse ?ps [] = Inr out"
    using assms(1) True by (simp add: parse_block_with_def Let_def)
  from block_loop_entries [OF this assms(2)] show ?thesis
    using True by (simp add: headed_blocks_def Let_def)
next
  case False
  have u: "upper ''SOLO'' = ''SOLO''"
    by (simp add: upper_def upper_chr_def upper_lower_def)
  show ?thesis
    using assms False u
    by (auto simp: parse_block_with_def headed_blocks_def Let_def split: sum.splits option.splits)
qed

lemma parse_block_with_keys:
  assumes "parse_block_with parse raw = Inr out" and "(k, v) \<in> set out"
  shows "k \<in> MODE_NAMES"
  using parse_block_with_entries [OF assms] headed_blocks_modes by blast

lemma parse_block_with_distinct:
  "parse_block_with parse raw = Inr out \<Longrightarrow> distinct (map fst out)"
  by (auto simp: parse_block_with_def Let_def split: if_splits sum.splits option.splits
      dest: block_loop_distinct)

section \<open>Numbers from text are non-negative\<close>

lemma py_float_nonneg: "py_float s = Inr r \<Longrightarrow> 0 \<le> r"
  by (auto simp: py_float_def Let_def split: list.splits if_splits)

lemma py_round_nonneg: "0 \<le> x \<Longrightarrow> 0 \<le> py_round x"
  by (auto simp: py_round_def Let_def)


lemma parse_time_nonneg: "parse_time_to_seconds s = Some a \<Longrightarrow> 0 \<le> a"
  by (auto simp: parse_time_to_seconds_def Let_def split: option.splits)

lemma priv_num_nonneg: "priv_num x = Some r \<Longrightarrow> 0 \<le> r"
  by (auto simp: priv_num_def split: option.splits sum.splits dest: py_float_nonneg)

lemma float_of_optional_Inr: "float_of_optional v = Inr r \<longleftrightarrow> v = Some r"
  by (auto simp: float_of_optional_def split: option.splits)

lemma games_fallback_3_nonneg:
  "games_fallback_3 s k = Some g \<Longrightarrow> float_of_val g = Inr r \<Longrightarrow> 0 \<le> r"
  by (auto simp: games_fallback_3_def Let_def float_of_val_def
      split: option.splits sum.splits if_splits dest!: py_float_nonneg)

lemma f3_games_nonneg:
  "f3_games (extract_fields_3 s) = Some g \<Longrightarrow> float_of_val g = Inr r \<Longrightarrow> 0 \<le> r"
  by (auto simp: extract_fields_3_def Let_def float_of_val_def
      split: option.splits dest: games_fallback_3_nonneg py_float_nonneg)

lemma f3_avg_survived_sec_nonneg:
  "f3_avg_survived_sec (extract_fields_3 s) = Some a \<Longrightarrow> 0 \<le> a"
  by (auto simp: extract_fields_3_def Let_def split: option.splits if_splits
      dest: parse_time_nonneg)

lemma convert_3_valid:
  assumes "convert_3 g k w a d = Inr ms" and "\<And>r. float_of_val g = Inr r \<Longrightarrow> 0 \<le> r"
    and "0 \<le> a"
  shows "valid_ModeStats ms"
  using assms
  by (auto simp: convert_3_def valid_ModeStats_def float_of_optional_Inr
      split: sum.splits dest: py_float_nonneg priv_num_nonneg intro!: py_round_nonneg)

lemma parse_stats_in_text_3_Some:
  "parse_stats_in_text_3 s = Inr (Some ms) \<longleftrightarrow>
   (\<exists>g k w a d.
      f3_games (extract_fields_3 s) = Some g \<and> f3_kills (extract_fields_3 s) = Some k
      \<and> f3_win_pct (extract_fields_3 s) = Some w
      \<and> f3_avg_survived_sec (extract_fields_3 s) = Some a
      \<and> f3_avg_damage (extract_fields_3 s) = Some d
      \<and> convert_3 g k w a d = Inr ms)"
  by (auto simp: parse_stats_in_text_3_def Let_def split: option.splits sum.splits)


lemma parse_stats_in_text_3_valid:
  "parse_stats_in_text_3 s = Inr (Some ms) \<Longrightarrow> valid_ModeStats ms"
  unfolding parse_stats_in_text_3_Some
  by (auto intro!: convert_3_valid dest: f3_games_nonneg f3_avg_survived_sec_nonneg)

lemma find_number_nonneg: "find_number p s = Inr (Some v) \<Longrightarrow> 0 \<le> v"
  by (auto simp: find_number_def split: option.splits sum.splits dest: py_float_nonneg)

lemma extract_fields_1_nonneg:
  assumes "extract_fields_1 s = Inr f"
  shows "(\<forall>v. f1_games f = Some v \<longrightarrow> 0 \<le> v) \<and> (\<forall>v. f1_kills f = Some v \<longrightarrow> 0 \<le> v)
    \<and> (\<forall>v. f1_win_pct f = Some v \<longrightarrow> 0 \<le> v) \<and> (\<forall>v. f1_avg_survived_sec f = Some v \<longrightarrow> 0 \<le> v)
    \<and> (\<forall>v. f1_avg_damage f = Some v \<longrightarrow> 0 \<le> v)"
  using assms unfolding extract_fields_1_def Let_def
  by (auto split: sum.splits option.splits if_splits
      dest!: find_number_nonneg parse_time_nonneg)

lemma parse_stats_in_text_1_Some:
  "parse_stats_in_text_1 s = Inr (Some ms) \<longleftrightarrow>
   (\<exists>f g k w a d.
      extract_fields_1 s = Inr f
      \<and> f1_games f = Some g \<and> f1_kills f = Some k \<and> f1_win_pct f = Some w
      \<and> f1_avg_survived_sec f = Some a \<and> f1_avg_damage f = Some d
      \<and> ms = \<lparr>games = py_round g, kills = py_round k, win_pct = w,
                avg_survived_sec = a, avg_damage = d\<rparr>)"
  by (auto simp: parse_stats_in_text_1_def split: option.splits sum.splits)


lemma parse_stats_in_text_1_valid:
  "parse_stats_in_text_1 s = Inr (Some ms) \<Longrightarrow> valid_ModeStats ms"
  unfolding parse_stats_in_text_1_Some
  by (auto simp: valid_ModeStats_def dest!: extract_fields_1_nonneg intro!: py_round_nonneg)

section \<open>What the capturing groups hold\<close>

lemma runs_nth:
  "i < length (runs p n (c, s)) \<Longrightarrow>
   \<exists>pre. s = pre @ snd (runs p n (c, s) ! i) \<and> length pre = i \<and> list_all p pre"
proof (induction s arbitrary: i n c)
  case Nil
  then show ?case by simp
next
  case (Cons x xs)
  show ?case
  proof (cases i)
    case 0
    then show ?thesis by simp
  next
    case (Suc j)
    then have ok: "0 < n \<and> p x" and j: "j < length (runs p (n - 1) (Some x, xs))"
      using Cons.prems by (auto split: if_splits)
    from Cons.IH [OF j] obtain pre where
      "xs = pre @ snd (runs p (n - 1) (Some x, xs) ! j)" "length pre = j" "list_all p pre"
      by blast
    then have "x # xs = (x # pre) @ snd (runs p n (c, x # xs) ! i)
               \<and> length (x # pre) = i \<and> list_all p (x # pre)"
      using ok Suc by simp
    then show ?thesis by blast
  qed
qed

lemma rep_cursors_consumed:
  assumes "cur' \<in> set (rep_cursors p lo hi greedy cur)"
  shows "list_all p (consumed cur cur') \<and> lo \<le> length (consumed cur cur')"
proof -
  define n where "n = (case hi of None \<Rightarrow> length (snd cur) | Some h \<Rightarrow> h)"
  define l where "l = runs p n cur"
  have "cur' \<in> set (drop lo l)"
    using assms by (auto simp: rep_cursors_def Let_def n_def l_def split: if_splits)
  then obtain j where j: "j < length (drop lo l)" "cur' = drop lo l ! j"
    by (auto simp: in_set_conv_nth)
  define i where "i = lo + j"
  have i: "i < length l" "lo \<le> i" "cur' = l ! i"
    using j by (auto simp: i_def)
  obtain c s where cur: "cur = (c, s)" by (cases cur)
  from runs_nth [of i p n c s] i obtain pre where
    pre: "s = pre @ snd cur'" "length pre = i" "list_all p pre"
    unfolding l_def cur by blast
  have "consumed cur cur' = pre"
    using pre(1) by (simp add: consumed_def cur)
  then show ?thesis using pre i by simp
qed

lemma no_group_keeps:
  "no_group r \<Longrightarrow> (cur', g') \<in> set (rmatch r cur g) \<Longrightarrow> g' = g"
proof (induction r arbitrary: cur g cur' g')
  case (Cat a b)
  from Cat.prems obtain c1 g1 where
    a: "(c1, g1) \<in> set (rmatch a cur g)" and b: "(cur', g') \<in> set (rmatch b c1 g1)"
    unfolding in_rmatch_Cat by blast
  have "g1 = g" using Cat.IH(1) [OF _ a] Cat.prems(1) by simp
  moreover have "g' = g1" using Cat.IH(2) [OF _ b] Cat.prems(1) by simp
  ultimately show ?case by simp
qed (auto split: list.splits if_splits)

lemma captures_Cat_right: "captures b P \<Longrightarrow> captures (Cat a b) P"
  unfolding captures_def in_rmatch_Cat by blast

lemma captures_Cat_left: "captures a P \<Longrightarrow> no_group b \<Longrightarrow> captures (Cat a b) P"
  unfolding captures_def in_rmatch_Cat by (metis no_group_keeps)

lemma captures_Grp_Rep:
  "captures (Grp 1 (Rep p lo hi greedy)) (\<lambda>t. list_all p t \<and> lo \<le> length t)"
  unfolding captures_def in_rmatch_Grp
  by (auto dest: rep_cursors_consumed)

lemma search_from_Some:
  "search_from r c s = Some m \<Longrightarrow> \<exists>cur. (m_end m, m_groups m) \<in> set (rmatch r cur Map.empty)"
  by (induction s arbitrary: c) (auto split: option.splits dest: match_at_Some)

lemma captures_search:
  assumes "captures r P" and "re_search r s = Some m"
  shows "\<exists>t. m_group m 1 = Some t \<and> P t"
  using assms search_from_Some [of r None s m]
  unfolding captures_def re_search_def m_group_def by blast

lemma no_group_lit_ci: "no_group (re_lit_ci w)"
  by (induction w) (simp_all add: re_lit_ci_def)

lemma no_group_SEP: "no_group SEP"
  by (simp add: SEP_def re_seq_def re_star_def re_opt_def)

lemma captures_GAMES_A: "captures GAMES_A (\<lambda>t. list_all is_digit t \<and> 1 \<le> length t)"
  unfolding GAMES_A_def re_seq_def re_plus_def foldr.simps o_apply id_apply
  by (intro captures_Cat_left captures_Grp_Rep)
     (simp add: re_star_def re_opt_def no_group_lit_ci)

lemma captures_GAMES_B: "captures GAMES_B (\<lambda>t. list_all is_digit t \<and> 1 \<le> length t)"
  unfolding GAMES_B_def re_seq_def re_plus_def foldr.simps o_apply id_apply
  by (intro captures_Cat_right captures_Cat_left captures_Grp_Rep) simp


lemma captures_WIN_RE: "captures WIN_RE (\<lambda>t. list_all num_chr t \<and> 1 \<le> length t)"
  unfolding WIN_RE_def re_seq_def re_plus_def foldr.simps o_apply id_apply
  by (intro captures_Cat_right captures_Cat_left captures_Grp_Rep) simp

lemma captures_DAMAGE_RE: "captures DAMAGE_RE (\<lambda>t. list_all num_chr t \<and> 1 \<le> length t)"
  unfolding DAMAGE_RE_def re_seq_def re_plus_def foldr.simps o_apply id_apply
  by (intro captures_Cat_right captures_Cat_left captures_Grp_Rep) simp

lemma captures_KG_RE: "captures KG_RE (\<lambda>t. list_all num_chr t \<and> 1 \<le> length t)"
  unfolding KG_RE_def re_seq_def re_plus_def foldr.simps o_apply id_apply
  by (intro captures_Cat_right captures_Cat_left captures_Grp_Rep) simp

lemma captures_GAMES_B1: "captures GAMES_B1 (\<lambda>t. list_all is_digit t \<and> 1 \<le> length t)"
  unfolding GAMES_B1_def re_seq_def re_plus_def foldr.simps o_apply id_apply
  by (intro captures_Cat_right captures_Cat_left captures_Grp_Rep) simp

lemma captures_KILLS_RE1: "captures KILLS_RE1 (\<lambda>t. list_all is_digit t \<and> 1 \<le> length t)"
  unfolding KILLS_RE1_def re_seq_def re_plus_def foldr.simps o_apply id_apply
  by (intro captures_Cat_right captures_Cat_left captures_Grp_Rep) simp

lemma captures_WIN_RE1: "captures WIN_RE1 (\<lambda>t. list_all dec_chr t \<and> 1 \<le> length t)"
  unfolding WIN_RE1_def re_seq_def re_plus_def foldr.simps o_apply id_apply
  by (intro captures_Cat_right captures_Cat_left captures_Grp_Rep) simp

lemma captures_DAMAGE_RE1: "captures DAMAGE_RE1 (\<lambda>t. list_all dec_chr t \<and> 1 \<le> length t)"
  unfolding DAMAGE_RE1_def re_seq_def re_plus_def foldr.simps o_apply id_apply
  by (intro captures_Cat_right captures_Cat_left captures_Grp_Rep) simp

lemma captures_KG_RE1: "captures KG_RE1 (\<lambda>t. list_all dec_chr t \<and> 1 \<le> length t)"
  unfolding KG_RE1_def re_seq_def re_plus_def foldr.simps o_apply id_apply
  by (intro captures_Cat_right captures_Cat_left captures_Grp_Rep) simp

lemma priv_take_captures:
  assumes "priv_take s ps = Some t" and "\<forall>r \<in> set ps. captures r P"
  shows "P t"
  using assms
proof (induction ps)
  case Nil
  then show ?case by simp
next
  case (Cons r rs)
  show ?case
  proof (cases "re_search r s")
    case None
    then show ?thesis using Cons by simp
  next
    case (Some m)
    then have "m_group m 1 = Some t" using Cons.prems(1) by simp
    moreover have "captures r P" using Cons.prems(2) by simp
    ultimately show ?thesis using captures_search [OF _ Some] by fastforce
  qed
qed

lemma py_float_digits:
  assumes "list_all is_digit t" and "1 \<le> length t"
  shows "py_float t = Inr (real (digits_val t))"
proof -
  have tw: "takeWhile is_digit t = t" and dw: "dropWhile is_digit t = []"
    using assms(1) by (simp_all add: list_all_iff)
  have ne: "t \<noteq> []" using assms(2) by auto
  show ?thesis
    unfolding py_float_def Let_def tw dw using ne by simp
qed

lemma games_text_is_number:
  "priv_take s [GAMES_A, GAMES_B] = Some t \<Longrightarrow> py_float t = Inr (real (digits_val t))"
  using priv_take_captures [of s "[GAMES_A, GAMES_B]" t "\<lambda>t. list_all is_digit t \<and> 1 \<le> length t"]
    captures_GAMES_A captures_GAMES_B
  by (simp add: py_float_digits)


section \<open>Worked inputs\<close>





lemma example_solo_3:
  "parse_block_3 ''solo 280 GAMES KILLS 1062 WIN % 20.7 AVG SURVIVED 2:37 AVG DAMAGE 432''
   = Inr [(''SOLO'', \<lparr>games = 280, kills = 1062, win_pct = 207 / 10,
                        avg_survived_sec = 157, avg_damage = 432\<rparr>)]"
  by code_simp

lemma example_solo_1:
  "parse_block_1 ''solo 280 GAMES KILLS 1062 WIN % 20.7 AVG SURVIVED 2:37 AVG DAMAGE 432''
   = Inr [(''SOLO'', \<lparr>games = 280, kills = 1062, win_pct = 207 / 10,
                        avg_survived_sec = 157, avg_damage = 432\<rparr>)]"
  by code_simp


lemma example_short_1:
  "parse_stats_in_text_1 ''1 GAME KILL 2 WIN 3 AVG SURVIVED 0:04 AVG DAMAGE 5''
   = Inr (Some \<lparr>games = 1, kills = 2, win_pct = 3, avg_survived_sec = 4, avg_damage = 5\<rparr>)"
  by code_simp

lemma example_thousands_3:
  "parse_block_3 ''SOLO 280 GAMES KILLS 1062 WIN % 20.7 AVG SURVIVED 2:37 AVG DAMAGE 1,234.5''
   = Inl TypeError"
  by code_simp

lemma example_dot_1: "parse_block_1 ''Win rate. 20.7'' = Inl ValueError"
  by code_simp

lemma example_two_dots_3:
  "parse_stats_in_text_3 ''5 GAMES KILLS 3 WIN % 1.2.3 AVG SURVIVED 2:37 AVG DAMAGE 432''
   = Inl TypeError"
  by code_simp

lemma example_comma_3:
  "parse_stats_in_text_3 ''5 GAMES KILLS 3 WIN % 20,7 AVG SURVIVED 2:37 AVG DAMAGE 4,5''
   = Inr (Some \<lparr>games = 5, kills = 3, win_pct = 207 / 10, avg_survived_sec = 157,
                  avg_damage = 9 / 2\<rparr>)"
  by code_simp

lemma example_point_3:
  "parse_stats_in_text_3 ''5 GAMES KILLS 3 WIN % 20.7 AVG SURVIVED 2:37 AVG DAMAGE 4.5''
   = Inr (Some \<lparr>games = 5, kills = 3, win_pct = 207 / 10, avg_survived_sec = 157,
                  avg_damage = 9 / 2\<rparr>)"
  by code_simp

lemma example_num:
  "priv_num (Some ''20,7'') = Some (207 / 10)"
  "priv_num (Some ''20.7'') = Some (207 / 10)"
  "priv_num (Some ''1.2.3'') = None"
  by code_simp+




section \<open>Extraction: the claims\<close>








text \<open>
  Claim C10. Whenever \<open>parse_block\<close> returns a mapping, in either revision, its keys are
  distinct and among \<open>SOLO\<close>, \<open>DUO\<close> and \<open>SQUAD\<close>, and each \<open>ModeStats\<close> in it has
  non-negative \<open>games\<close>, \<open>kills\<close>, \<open>avg_survived_sec\<close>, \<open>win_pct\<close> and \<open>avg_damage\<close>.
\<close>

theorem parse_block_keys_and_values:
  "(parse_block_3 raw = Inr modes \<longrightarrow>
      distinct (map fst modes)
      \<and> (\<forall>(k, ms) \<in> set modes.
            k \<in> {''SOLO'', ''DUO'', ''SQUAD''}
            \<and> 0 \<le> games ms \<and> 0 \<le> kills ms \<and> 0 \<le> avg_survived_sec ms
            \<and> 0 \<le> win_pct ms \<and> 0 \<le> avg_damage ms))
   \<and> (parse_block_1 raw = Inr modes \<longrightarrow>
      distinct (map fst modes)
      \<and> (\<forall>(k, ms) \<in> set modes.
            k \<in> {''SOLO'', ''DUO'', ''SQUAD''}
            \<and> 0 \<le> games ms \<and> 0 \<le> kills ms \<and> 0 \<le> avg_survived_sec ms
            \<and> 0 \<le> win_pct ms \<and> 0 \<le> avg_damage ms))"
proof -
  have gen: "distinct (map fst modes)
      \<and> (\<forall>(k, ms) \<in> set modes.
            k \<in> {''SOLO'', ''DUO'', ''SQUAD''}
            \<and> 0 \<le> games ms \<and> 0 \<le> kills ms \<and> 0 \<le> avg_survived_sec ms
            \<and> 0 \<le> win_pct ms \<and> 0 \<le> avg_damage ms)"
    if out: "parse_block_with parse raw = Inr modes"
      and ok: "\<And>b v. parse b = Inr (Some v) \<Longrightarrow> valid_ModeStats v"
    for parse
  proof -
    have "k \<in> {''SOLO'', ''DUO'', ''SQUAD''} \<and> valid_ModeStats ms" if "(k, ms) \<in> set modes" for k ms
    proof -
      have "k \<in> MODE_NAMES" using parse_block_with_keys [OF out that] .
      moreover have "valid_ModeStats ms"
        using parse_block_with_entries [OF out that] ok by blast
      ultimately show ?thesis by (simp add: MODE_NAMES_def)
    qed
    then show ?thesis
      using parse_block_with_distinct [OF out] by (auto simp: valid_ModeStats_def)
  qed
  show ?thesis
    using gen [of parse_stats_in_text_3] gen [of parse_stats_in_text_1]
      parse_stats_in_text_3_valid parse_stats_in_text_1_valid
    unfolding parse_block_3_def parse_block_1_def by blast
qed

theorem parse_block_keys_and_values_witness:
  "parse_block_3 ''solo 280 GAMES KILLS 1062 WIN % 20.7 AVG SURVIVED 2:37 AVG DAMAGE 432''
     = Inr [(''SOLO'', \<lparr>games = 280, kills = 1062, win_pct = 207 / 10,
                          avg_survived_sec = 157, avg_damage = 432\<rparr>)]
   \<and> parse_block_1 ''solo 280 GAMES KILLS 1062 WIN % 20.7 AVG SURVIVED 2:37 AVG DAMAGE 432''
     = Inr [(''SOLO'', \<lparr>games = 280, kills = 1062, win_pct = 207 / 10,
                          avg_survived_sec = 157, avg_damage = 432\<rparr>)]
   \<and> distinct (map fst [(''SOLO'', \<lparr>games = 280, kills = 1062, win_pct = 207 / 10,
                                      avg_survived_sec = 157, avg_damage = 432\<rparr>)])
   \<and> ''SOLO'' \<in> {''SOLO'', ''DUO'', ''SQUAD''}"
  using parse_block_keys_and_values
    [of "''solo 280 GAMES KILLS 1062 WIN % 20.7 AVG SURVIVED 2:37 AVG DAMAGE 432''"
        "[(''SOLO'', \<lparr>games = 280, kills = 1062, win_pct = 207 / 10,
                       avg_survived_sec = 157, avg_damage = 432\<rparr>)]"]
    example_solo_3 example_solo_1
  by simp







text \<open>
  Claim C6 fails on the code: extraction is not total. In \<open>survev_spi_app (3).py\<close> a number
  with two separators, such as an average damage written with a thousands separator,
  passes the \<open>None\<close> test as text, \<open>_num\<close> returns \<open>None\<close> for it, and \<open>float(None)\<close> raises
  \<open>TypeError\<close>. In \<open>survev_spi_app.py\<close> a lone dot after the label reaches \<open>float\<close>, which
  raises \<open>ValueError\<close>.
\<close>

theorem extraction_raises:
  "parse_block_3 ''SOLO 280 GAMES KILLS 1062 WIN % 20.7 AVG SURVIVED 2:37 AVG DAMAGE 1,234.5''
     = Inl TypeError
   \<and> parse_block_1 ''Win rate. 20.7'' = Inl ValueError"
  using example_thousands_3 example_dot_1 by simp

text \<open>
  Claim C7 holds for the separator and fails for the unparsable value: \<open>_num\<close> reads
  \<open>20,7\<close> and \<open>20.7\<close> as the same number and returns \<open>None\<close> for \<open>1.2.3\<close>, and a block
  written with commas is extracted like the block written with dots; but the caller does
  not treat that \<open>None\<close> as an absent field, it passes it to \<open>float\<close>, which raises.
\<close>

theorem unparsable_number_raises:
  "priv_num (Some ''20,7'') = Some (207 / 10)
   \<and> priv_num (Some ''20.7'') = Some (207 / 10)
   \<and> parse_stats_in_text_3 ''5 GAMES KILLS 3 WIN % 20,7 AVG SURVIVED 2:37 AVG DAMAGE 4,5''
       = parse_stats_in_text_3 ''5 GAMES KILLS 3 WIN % 20.7 AVG SURVIVED 2:37 AVG DAMAGE 4.5''
   \<and> priv_num (Some ''1.2.3'') = None
   \<and> parse_stats_in_text_3 ''5 GAMES KILLS 3 WIN % 1.2.3 AVG SURVIVED 2:37 AVG DAMAGE 432''
       = Inl TypeError"
  using example_num example_comma_3 example_point_3 example_two_dots_3 by simp


end
